theory Spec2Isabelle
  imports Main "HOL-Library.Char_ord" "HOL-Library.List_Lexorder"
begin

section \<open>Strings, digits and calendar dates\<close>

text \<open>
  Python's \<open>str\<close> is a sequence of code points; a \<open>string\<close> here is a list of
  \<open>char\<close>, one per code point below 256. The only character of the source outside
  ASCII that reaches a response is the c-cedilla of the second subject, code point 231.
\<close>

definition is_digit :: "char \<Rightarrow> bool" where
  "is_digit c = (c \<in> set ''0123456789'')"

definition digit_val :: "char \<Rightarrow> nat" where
  "digit_val c = of_char c - 48"

definition digit_char :: "nat \<Rightarrow> char" where
  "digit_char n = char_of (48 + n)"

text \<open>Zero-padded decimal fields of \<open>strftime\<close>: \<open>%m\<close>, \<open>%d\<close>, \<open>%H\<close>, \<open>%M\<close> (two digits);
  \<open>pad4\<close> writes the four digits of a number from 1000 to 9999.\<close>

definition pad2 :: "nat \<Rightarrow> string" where
  "pad2 n = [digit_char (n div 10 mod 10), digit_char (n mod 10)]"

definition pad4 :: "nat \<Rightarrow> string" where
  "pad4 n = [digit_char (n div 1000 mod 10), digit_char (n div 100 mod 10),
             digit_char (n div 10 mod 10), digit_char (n mod 10)]"

text \<open>\<open>datetime.date\<close>: a proleptic Gregorian date with \<open>1 \<le> year \<le> 9999\<close>.\<close>

record date =
  year :: nat
  month :: nat
  day :: nat

fun is_leap :: "nat \<Rightarrow> bool" where
  "is_leap y = (y mod 4 = 0 \<and> (y mod 100 \<noteq> 0 \<or> y mod 400 = 0))"

fun days_in_month :: "nat \<Rightarrow> nat \<Rightarrow> nat" where
  "days_in_month y m =
     (if m = 2 then (if is_leap y then 29 else 28)
      else if m = 4 \<or> m = 6 \<or> m = 9 \<or> m = 11 then 30 else 31)"

text \<open>
  The exceptions the handlers can meet. The handlers report \<open>str(e)\<close> as the detail of
  a status 500; the exception value stands for its message text:
  \<^item> \<open>ValueError_no_match s\<close>: time data \<open>s\<close> does not match format \<open>%Y-%m-%d\<close>;
  \<^item> \<open>ValueError_unconverted r\<close>: unconverted data remains: \<open>r\<close>;
  \<^item> \<open>ValueError_year y\<close>: year \<open>y\<close> is out of range;
  \<^item> \<open>ValueError_month\<close>: month must be in 1..12;
  \<^item> \<open>ValueError_day\<close>: day is out of range for month;
  \<^item> \<open>OverflowError_date\<close>: date value out of range;
  \<^item> \<open>StorageError\<close>: the persistence adapter has no database;
  \<^item> \<open>SerializationError f\<close>: a stored document cannot be read back, at field \<open>f\<close>.
\<close>

datatype py_exception =
    ValueError_no_match string
  | ValueError_unconverted string
  | ValueError_year nat
  | ValueError_month
  | ValueError_day
  | OverflowError_date
  | StorageError
  | SerializationError string

text \<open>The constructor \<open>datetime.date(y, m, d)\<close> with its range checks, in their order.\<close>

definition new_date :: "nat \<Rightarrow> nat \<Rightarrow> nat \<Rightarrow> py_exception + date" where
  "new_date y m d =
     (if y < 1 \<or> 9999 < y then Inl (ValueError_year y)
      else if m < 1 \<or> 12 < m then Inl ValueError_month
      else if d < 1 \<or> days_in_month y m < d then Inl ValueError_day
      else Inr \<lparr>year = y, month = m, day = d\<rparr>)"

text \<open>Comparison of dates, as of the triples (year, month, day).\<close>

fun date_less :: "date \<Rightarrow> date \<Rightarrow> bool" where
  "date_less a b =
     (year a < year b \<or> (year a = year b \<and>
       (month a < month b \<or> (month a = month b \<and> day a < day b))))"

fun date_le :: "date \<Rightarrow> date \<Rightarrow> bool" where
  "date_le a b = (date_less a b \<or> a = b)"

text \<open>
  \<open>d + timedelta(days=1)\<close>: the next calendar day; past 9999-12-31 the library raises
  OverflowError. \<open>date_add_days d n\<close> is \<open>d + timedelta(days=n)\<close> for \<open>n \<ge> 0\<close>.
\<close>

definition next_day :: "date \<Rightarrow> py_exception + date" where
  "next_day d =
     (if day d < days_in_month (year d) (month d) then Inr (d\<lparr>day := day d + 1\<rparr>)
      else if month d < 12 then Inr (d\<lparr>month := month d + 1, day := 1\<rparr>)
      else if year d < 9999 then Inr \<lparr>year = year d + 1, month = 1, day = 1\<rparr>
      else Inl OverflowError_date)"

fun date_add_days :: "date \<Rightarrow> nat \<Rightarrow> py_exception + date" where
  "date_add_days d 0 = Inr d"
| "date_add_days d (Suc n) =
     (case next_day d of Inl e \<Rightarrow> Inl e | Inr d' \<Rightarrow> date_add_days d' n)"

subsection \<open>\<open>strptime(s, "%Y-%m-%d")\<close>\<close>

text \<open>
  The library turns the format into the regular expression
  \<^verbatim>\<open>(\d\d\d\d)-(1[0-2]|0[1-9]|[1-9])-(3[0-1]|[1-2]\d|0[1-9]|[1-9]| [1-9])\<close>
  and matches it at the start of the string. The alternatives are tried in their order.
  For the month, the first alternative that matches is the only one after which a
  hyphen can follow, so taking it is what the backtracking matcher does. A match that
  leaves characters over is "unconverted data"; a matched triple then goes through the
  date constructor.
\<close>

fun match_Y :: "string \<Rightarrow> (nat \<times> string) option" where
  "match_Y (a # b # c # d # rest) =
     (if is_digit a \<and> is_digit b \<and> is_digit c \<and> is_digit d
      then Some (1000 * digit_val a + 100 * digit_val b + 10 * digit_val c + digit_val d, rest)
      else None)"
| "match_Y _ = None"

fun match_m :: "string \<Rightarrow> (nat \<times> string) option" where
  "match_m (a # b # rest) =
     (if a = CHR ''1'' \<and> b \<in> set ''012'' then Some (10 + digit_val b, rest)
      else if a = CHR ''0'' \<and> b \<in> set ''123456789'' then Some (digit_val b, rest)
      else if a \<in> set ''123456789'' then Some (digit_val a, b # rest)
      else None)"
| "match_m [a] = (if a \<in> set ''123456789'' then Some (digit_val a, []) else None)"
| "match_m [] = None"

fun match_d :: "string \<Rightarrow> (nat \<times> string) option" where
  "match_d (a # b # rest) =
     (if a = CHR ''3'' \<and> b \<in> set ''01'' then Some (30 + digit_val b, rest)
      else if a \<in> set ''12'' \<and> is_digit b then Some (10 * digit_val a + digit_val b, rest)
      else if a = CHR ''0'' \<and> b \<in> set ''123456789'' then Some (digit_val b, rest)
      else if a \<in> set ''123456789'' then Some (digit_val a, b # rest)
      else if a = CHR '' '' \<and> b \<in> set ''123456789'' then Some (digit_val b, rest)
      else None)"
| "match_d [a] = (if a \<in> set ''123456789'' then Some (digit_val a, []) else None)"
| "match_d [] = None"

fun match_hyphen :: "string \<Rightarrow> string option" where
  "match_hyphen (c # rest) = (if c = CHR ''-'' then Some rest else None)"
| "match_hyphen [] = None"

definition match_Ymd :: "string \<Rightarrow> (nat \<times> nat \<times> nat \<times> string) option" where
  "match_Ymd s =
     (case match_Y s of None \<Rightarrow> None | Some (y, r1) \<Rightarrow>
       (case match_hyphen r1 of None \<Rightarrow> None | Some r2 \<Rightarrow>
         (case match_m r2 of None \<Rightarrow> None | Some (m, r3) \<Rightarrow>
           (case match_hyphen r3 of None \<Rightarrow> None | Some r4 \<Rightarrow>
             (case match_d r4 of None \<Rightarrow> None | Some (d, r5) \<Rightarrow> Some (y, m, d, r5))))))"

definition strptime_date :: "string \<Rightarrow> py_exception + date" where
  "strptime_date s =
     (case match_Ymd s of
        None \<Rightarrow> Inl (ValueError_no_match s)
      | Some (y, m, d, r) \<Rightarrow>
          if r \<noteq> [] then Inl (ValueError_unconverted r) else new_date y m d)"

text \<open>\<open>d.strftime("%Y-%m-%d")\<close>.\<close>

text \<open>
  The field \<open>%Y\<close> of \<open>strftime\<close>: the C library prints the year as a plain decimal
  number, without padding, so the year 999 is written \<open>999\<close> and the year 1 is written
  \<open>1\<close>; a year from 1000 on has its four digits.
\<close>

definition strftime_Y :: "nat \<Rightarrow> string" where
  "strftime_Y y =
     (if y < 10 then [digit_char y]
      else if y < 100 then [digit_char (y div 10), digit_char (y mod 10)]
      else if y < 1000 then [digit_char (y div 100), digit_char (y div 10 mod 10), digit_char (y mod 10)]
      else pad4 y)"

definition strftime_date :: "date \<Rightarrow> string" where
  "strftime_date d = strftime_Y (year d) @ ''-'' @ pad2 (month d) @ ''-'' @ pad2 (day d)"

text \<open>
  A valid date in the sense of the claims: a string of the canonical form YYYY-MM-DD,
  zero-padded, that names a day of the calendar between 0001-01-01 and 9999-12-31. Among
  such strings, those from the year 1000 on are the ones not below \<open>1000-01-01\<close> in
  the order of strings.
\<close>

fun iso_date :: "string \<Rightarrow> bool" where
  "iso_date [y1, y2, y3, y4, h1, m1, m2, h2, d1, d2] =
     (is_digit y1 \<and> is_digit y2 \<and> is_digit y3 \<and> is_digit y4 \<and> h1 = CHR ''-'' \<and>
      is_digit m1 \<and> is_digit m2 \<and> h2 = CHR ''-'' \<and> is_digit d1 \<and> is_digit d2 \<and>
      1 \<le> 1000 * digit_val y1 + 100 * digit_val y2 + 10 * digit_val y3 + digit_val y4 \<and>
      1 \<le> 10 * digit_val m1 + digit_val m2 \<and> 10 * digit_val m1 + digit_val m2 \<le> 12 \<and>
      1 \<le> 10 * digit_val d1 + digit_val d2 \<and>
      10 * digit_val d1 + digit_val d2 \<le>
        days_in_month (1000 * digit_val y1 + 100 * digit_val y2 + 10 * digit_val y3 + digit_val y4)
          (10 * digit_val m1 + digit_val m2))"
| "iso_date _ = False"

subsection \<open>\<open>datetime\<close> values of the timetable slot\<close>

record datetime =
  on_date :: date
  hour :: nat
  minute :: nat

text \<open>\<open>datetime.combine(d, t)\<close> for a time of day \<open>t\<close> given as hour and minute.\<close>

definition combine :: "date \<Rightarrow> nat \<times> nat \<Rightarrow> datetime" where
  "combine d t = \<lparr>on_date = d, hour = fst t, minute = snd t\<rparr>"

text \<open>\<open>dt + timedelta(hours=h, minutes=m)\<close>, carrying whole days into the date.\<close>

definition datetime_add :: "datetime \<Rightarrow> nat \<Rightarrow> nat \<Rightarrow> py_exception + datetime" where
  "datetime_add dt h m =
     (let total = hour dt * 60 + minute dt + h * 60 + m in
      case date_add_days (on_date dt) (total div 1440) of
        Inl e \<Rightarrow> Inl e
      | Inr d \<Rightarrow> Inr \<lparr>on_date = d, hour = total mod 1440 div 60, minute = total mod 60\<rparr>)"

text \<open>\<open>dt.strftime("%H:%M")\<close>.\<close>

definition strftime_HM :: "datetime \<Rightarrow> string" where
  "strftime_HM dt = pad2 (hour dt) @ '':'' @ pad2 (minute dt)"

section \<open>Schemas (\<open>schemas.py\<close>)\<close>

record MenuItem =
  dish :: string
  type :: string

record CanteenMenuDay =
  cmd_date :: string
  cmd_items :: "MenuItem list"

record TimetableEntry =
  te_date :: string
  te_start :: string
  te_end :: string
  subject :: string
  room :: "string option"
  teacher :: "string option"
  group :: "string option"

record AbsenceRecord =
  ar_date :: string
  ar_start :: string
  ar_end :: string
  justified :: bool
  reason :: "string option"

record PronoteCredentials =
  url :: string
  username :: string
  password :: string

section \<open>Responses\<close>

text \<open>
  A handler returns its value (status 200) or raises \<open>HTTPException(500, str(e))\<close>;
  a request body that fails validation is answered by the framework with status 422
  and the list of failed fields.
\<close>

datatype validation_error = Missing "string list" | Wrong_type "string list"

datatype 'a http_result =
    HTTP_200 'a
  | HTTP_422 "validation_error list"
  | HTTP_500 py_exception

section \<open>Pronote handlers (\<open>main.py\<close>)\<close>

record TimetableRequest = PronoteCredentials +
  tt_start :: "string option"
  tt_end :: "string option"

record AbsencesRequest = PronoteCredentials +
  ab_start :: "string option"
  ab_end :: "string option"

text \<open>Truth value of an \<open>Optional[str]\<close>: \<open>None\<close> and the empty string are false.\<close>

fun truthy :: "string option \<Rightarrow> bool" where
  "truthy None = False"
| "truthy (Some s) = (s \<noteq> [])"

text \<open>\<open>strptime(x, "%Y-%m-%d").date()\<close> when \<open>x\<close> is true, else the value already held.\<close>

fun parse_or :: "string option \<Rightarrow> date \<Rightarrow> py_exception + date" where
  "parse_or (Some s) dflt = (if s \<noteq> [] then strptime_date s else Inr dflt)"
| "parse_or None dflt = Inr dflt"

definition subjects :: "string list" where
  "subjects = [''Maths'', [CHR ''F'', CHR ''r'', CHR ''a'', CHR ''n'', CHR 0xE7, CHR ''a'', CHR ''i'', CHR ''s''],
               ''Physique'', ''Histoire'', ''Anglais'']"

definition rooms :: "string list" where
  "rooms = [''B201'', ''A105'', ''Lab1'', ''C303'', ''L001'']"

text \<open>The body of one iteration up to the \<open>append\<close>: the entry of day \<open>cur\<close>, index \<open>i\<close>.\<close>

definition timetable_entry :: "date \<Rightarrow> nat \<Rightarrow> py_exception + TimetableEntry" where
  "timetable_entry cur i =
     (let start_t = combine cur (8, 0) in
      case datetime_add start_t 1 30 of
        Inl e \<Rightarrow> Inl e
      | Inr end_t \<Rightarrow>
          Inr \<lparr>te_date = strftime_date cur,
               te_start = strftime_HM start_t,
               te_end = strftime_HM end_t,
               subject = subjects ! (i mod length subjects),
               room = Some (rooms ! (i mod length rooms)),
               teacher = Some ''M./Mme X'',
               group = Some ''2nde A''\<rparr>)"

text \<open>The loop \<open>while cur <= end_date and i < 10\<close>.\<close>

function timetable_loop ::
  "date \<Rightarrow> date \<Rightarrow> nat \<Rightarrow> TimetableEntry list \<Rightarrow> py_exception + TimetableEntry list" where
  "timetable_loop cur end_date i results =
     (if date_le cur end_date \<and> i < 10 then
        (case timetable_entry cur i of
           Inl e \<Rightarrow> Inl e
         | Inr entry \<Rightarrow>
             (case date_add_days cur (Suc 0) of
                Inl e \<Rightarrow> Inl e
              | Inr cur' \<Rightarrow> timetable_loop cur' end_date (i + 1) (results @ [entry])))
      else Inr results)"
  by pat_completeness auto
termination
  by (relation "measure (\<lambda>(cur, end_date, i, results). 10 - i)") auto

declare timetable_loop.simps [simp del]

text \<open>
  \<open>get_pronote_timetable\<close>. \<open>utcnow\<close> is the reading of \<open>datetime.utcnow().date()\<close>.
  Both \<open>start_date\<close> and \<open>end_date\<close> start as today; \<open>end_date\<close> is assigned before
  \<open>req.start\<close> is looked at.
\<close>

definition timetable_body :: "date \<Rightarrow> TimetableRequest \<Rightarrow> py_exception + TimetableEntry list" where
  "timetable_body utcnow req =
     (case parse_or (tt_start req) utcnow of
        Inl e \<Rightarrow> Inl e
      | Inr start_date \<Rightarrow>
          (case parse_or (tt_end req) utcnow of
             Inl e \<Rightarrow> Inl e
           | Inr end_date0 \<Rightarrow>
               (let end_date = (if date_less end_date0 start_date then start_date else end_date0)
                in timetable_loop start_date end_date 0 [])))"

definition get_pronote_timetable :: "date \<Rightarrow> TimetableRequest \<Rightarrow> TimetableEntry list http_result" where
  "get_pronote_timetable utcnow req =
     (case timetable_body utcnow req of Inl e \<Rightarrow> HTTP_500 e | Inr results \<Rightarrow> HTTP_200 results)"

text \<open>\<open>get_pronote_absences\<close>: \<open>req.end\<close> is never read.\<close>

definition get_pronote_absences :: "date \<Rightarrow> AbsencesRequest \<Rightarrow> AbsenceRecord list http_result" where
  "get_pronote_absences utcnow req =
     (case parse_or (ab_start req) utcnow of
        Inl e \<Rightarrow> HTTP_500 e
      | Inr start_date \<Rightarrow>
          (let absence_day = strftime_date start_date in
           HTTP_200 [\<lparr>ar_date = absence_day, ar_start = ''10:00'', ar_end = ''12:00'',
                      justified = False, reason = None\<rparr>]))"

section \<open>Stored documents and the persistence adapter\<close>

text \<open>
  A stored document is a dictionary of storage-native values together with the
  identifier the store assigned to it (the \<open>_id\<close> of the document).
\<close>

datatype bson =
    BNull
  | BBool bool
  | BInt int
  | BStr string
  | BList "bson list"
  | BDoc "(string \<times> bson) list"

record document =
  oid :: nat
  doc_fields :: "(string \<times> bson) list"

text \<open>\<open>doc.get(k)\<close> for a key other than \<open>_id\<close>.\<close>

definition doc_get :: "document \<Rightarrow> string \<Rightarrow> bson option" where
  "doc_get doc k = map_of (doc_fields doc) k"

text \<open>\<open>str\<close> of an identifier: 24 hexadecimal digits.\<close>

definition hex_digit :: "nat \<Rightarrow> char" where
  "hex_digit n = ''0123456789abcdef'' ! (n mod 16)"

definition oid_str :: "nat \<Rightarrow> string" where
  "oid_str n = map (\<lambda>k. hex_digit (n div 16 ^ k)) (rev [0..<24])"

text \<open>
  The database handle \<open>db\<close> of \<open>database.py\<close>: \<open>None\<close> when no database is configured
  (\<open>main.py\<close> tests \<open>db is not None\<close>), else the collections by name, each in storage
  order, and the next identifier to assign.
\<close>

record database =
  collections :: "string \<Rightarrow> document list"
  next_oid :: nat

text \<open>The filters the handlers build: \<open>{f: v}\<close> and \<open>{f: {"$gte": lo, "$lte": hi}}\<close>.\<close>

datatype query =
    Field_eq string bson
  | Field_range string string string

text \<open>
  A range on strings selects the documents whose field is a string between the bounds,
  in the order of the code points.
\<close>

fun matches :: "query \<Rightarrow> document \<Rightarrow> bool" where
  "matches (Field_eq f v) doc = (doc_get doc f = Some v)"
| "matches (Field_range f lo hi) doc =
     (case doc_get doc f of Some (BStr s) \<Rightarrow> lo \<le> s \<and> s \<le> hi | _ \<Rightarrow> False)"

text \<open>
  Modelled from the spec: \<open>create_document\<close> of \<open>database.py\<close>, which is not among the
  sources. It inserts the serialized payload into the named collection and
  returns the newly assigned identifier as a string; it fails with a storage error when
  the connection is unavailable. Documents are kept in insertion order, the order the
  spec names as the current behaviour of queries. The serialization of the payload is
  done by the caller's \<open>model_dump\<close> below.
\<close>

definition create_document ::
  "database option \<Rightarrow> string \<Rightarrow> (string \<times> bson) list \<Rightarrow> (py_exception + string) \<times> database option" where
  "create_document db collection_name data =
     (case db of
        None \<Rightarrow> (Inl StorageError, None)
      | Some st \<Rightarrow>
          (Inr (oid_str (next_oid st)),
           Some (st\<lparr>collections := (collections st)
                      (collection_name := collections st collection_name @
                         [\<lparr>oid = next_oid st, doc_fields = data\<rparr>]),
                    next_oid := next_oid st + 1\<rparr>)))"

text \<open>
  Modelled from the spec: \<open>get_documents\<close> of \<open>database.py\<close>, which is not among the
  sources. It returns up to \<open>limit\<close> matching documents of the named collection in
  storage order, the empty sequence when none matches, and fails with a storage error
  when the connection is unavailable.
\<close>

definition get_documents ::
  "database option \<Rightarrow> string \<Rightarrow> query \<Rightarrow> nat \<Rightarrow> py_exception + document list" where
  "get_documents db collection_name q limit =
     (case db of
        None \<Rightarrow> Inl StorageError
      | Some st \<Rightarrow> Inr (take limit (filter (matches q) (collections st collection_name))))"

section \<open>Menu handlers (\<open>main.py\<close>)\<close>

record MenuOut =
  mo_id :: string
  mo_date :: string
  mo_items :: "MenuItem list"

record MenuCreated =
  success :: bool
  created_id :: string

text \<open>The dictionary a validated \<open>CanteenMenuDay\<close> is stored as.\<close>

definition dump_MenuItem :: "MenuItem \<Rightarrow> bson" where
  "dump_MenuItem item = BDoc [(''dish'', BStr (dish item)), (''type'', BStr (type item))]"

definition model_dump :: "CanteenMenuDay \<Rightarrow> (string \<times> bson) list" where
  "model_dump payload =
     [(''date'', BStr (cmd_date payload)),
      (''items'', BList (map dump_MenuItem (cmd_items payload)))]"

text \<open>A list comprehension whose element expression can raise: the first failure wins.\<close>

fun traverse :: "('a \<Rightarrow> 'e + 'b) \<Rightarrow> 'a list \<Rightarrow> 'e + 'b list" where
  "traverse f [] = Inr []"
| "traverse f (x # xs) =
     (case f x of
        Inl e \<Rightarrow> Inl e
      | Inr y \<Rightarrow> (case traverse f xs of Inl e \<Rightarrow> Inl e | Inr ys \<Rightarrow> Inr (y # ys)))"

text \<open>
  Iterating over a stored value: a list gives its elements, a string its characters,
  a dictionary its keys; anything else is not iterable.
\<close>

fun py_iter :: "bson \<Rightarrow> py_exception + bson list" where
  "py_iter (BList xs) = Inr xs"
| "py_iter (BStr s) = Inr (map (\<lambda>c. BStr [c]) s)"
| "py_iter (BDoc kv) = Inr (map (\<lambda>p. BStr (fst p)) kv)"
| "py_iter _ = Inl (SerializationError ''items'')"

text \<open>\<open>MenuItem(**item)\<close>: both fields are required strings, other keys are ignored.\<close>

fun MenuItem_of :: "bson \<Rightarrow> py_exception + MenuItem" where
  "MenuItem_of (BDoc kv) =
     (case map_of kv ''dish'' of
        Some (BStr d) \<Rightarrow>
          (case map_of kv ''type'' of
             Some (BStr t) \<Rightarrow> Inr \<lparr>dish = d, type = t\<rparr>
           | _ \<Rightarrow> Inl (SerializationError ''type''))
      | _ \<Rightarrow> Inl (SerializationError ''dish''))"
| "MenuItem_of _ = Inl (SerializationError ''items'')"

text \<open>
  \<open>_serialize_menu\<close>. The arguments of \<open>MenuOut\<close> are evaluated first, so a failing item
  is reported before a missing date.
\<close>

definition serialize_menu :: "document \<Rightarrow> py_exception + MenuOut" where
  "serialize_menu doc =
     (case (case doc_get doc ''items'' of None \<Rightarrow> Inr [] | Some v \<Rightarrow> py_iter v) of
        Inl e \<Rightarrow> Inl e
      | Inr raw \<Rightarrow>
          (case traverse MenuItem_of raw of
             Inl e \<Rightarrow> Inl e
           | Inr its \<Rightarrow>
               (case doc_get doc ''date'' of
                  Some (BStr d) \<Rightarrow> Inr \<lparr>mo_id = oid_str (oid doc), mo_date = d, mo_items = its\<rparr>
                | _ \<Rightarrow> Inl (SerializationError ''date''))))"

text \<open>\<open>create_menu_day\<close>: the response and the database after the call.\<close>

definition create_menu_day ::
  "database option \<Rightarrow> CanteenMenuDay \<Rightarrow> MenuCreated http_result \<times> database option" where
  "create_menu_day db payload =
     (case create_document db ''canteenmenuday'' (model_dump payload) of
        (Inl e, db') \<Rightarrow> (HTTP_500 e, db')
      | (Inr inserted_id, db') \<Rightarrow> (HTTP_200 \<lparr>success = True, created_id = inserted_id\<rparr>, db'))"

text \<open>\<open>get_today_menu\<close>; \<open>utcnow\<close> is the reading of \<open>datetime.utcnow()\<close>.\<close>

definition get_today_menu :: "date \<Rightarrow> database option \<Rightarrow> MenuOut option http_result" where
  "get_today_menu utcnow db =
     (let today = strftime_date utcnow in
      case get_documents db ''canteenmenuday'' (Field_eq ''date'' (BStr today)) 1 of
        Inl e \<Rightarrow> HTTP_500 e
      | Inr docs \<Rightarrow>
          (case docs of
             [] \<Rightarrow> HTTP_200 None
           | doc # _ \<Rightarrow>
               (case serialize_menu doc of
                  Inl e \<Rightarrow> HTTP_500 e
                | Inr out \<Rightarrow> HTTP_200 (Some out))))"

text \<open>\<open>get_menu_range\<close>.\<close>

definition get_menu_range :: "database option \<Rightarrow> string \<Rightarrow> string \<Rightarrow> MenuOut list http_result" where
  "get_menu_range db start end' =
     (case get_documents db ''canteenmenuday'' (Field_range ''date'' start end') 100 of
        Inl e \<Rightarrow> HTTP_500 e
      | Inr docs \<Rightarrow>
          (case traverse serialize_menu docs of
             Inl e \<Rightarrow> HTTP_500 e
           | Inr outs \<Rightarrow> HTTP_200 outs))"

section \<open>Request validation at the boundary\<close>

text \<open>
  The framework parses the body of a POST as JSON and validates it against the model
  the handler's parameter is annotated with; the handler runs only on a validated value.
  A string field accepts a JSON string only; keys the model does not declare are ignored.
\<close>

datatype json =
    JNull
  | JBool bool
  | JNum int
  | JStr string
  | JArr "json list"
  | JObj "(string \<times> json) list"

text \<open>Validation collects the failures of all fields.\<close>

fun both :: "validation_error list + 'a \<Rightarrow> validation_error list + 'b \<Rightarrow>
    validation_error list + ('a \<times> 'b)" where
  "both (Inr a) (Inr b) = Inr (a, b)"
| "both (Inl e) (Inr b) = Inl e"
| "both (Inr a) (Inl e) = Inl e"
| "both (Inl e1) (Inl e2) = Inl (e1 @ e2)"

fun required_str :: "string list \<Rightarrow> (string \<times> json) list \<Rightarrow> string \<Rightarrow> validation_error list + string" where
  "required_str loc kv k =
     (case map_of kv k of
        None \<Rightarrow> Inl [Missing (loc @ [k])]
      | Some (JStr s) \<Rightarrow> Inr s
      | Some _ \<Rightarrow> Inl [Wrong_type (loc @ [k])])"

fun optional_str :: "string list \<Rightarrow> (string \<times> json) list \<Rightarrow> string \<Rightarrow>
    validation_error list + string option" where
  "optional_str loc kv k =
     (case map_of kv k of
        None \<Rightarrow> Inr None
      | Some JNull \<Rightarrow> Inr None
      | Some (JStr s) \<Rightarrow> Inr (Some s)
      | Some _ \<Rightarrow> Inl [Wrong_type (loc @ [k])])"

fun validate_MenuItem :: "string list \<Rightarrow> json \<Rightarrow> validation_error list + MenuItem" where
  "validate_MenuItem loc (JObj kv) =
     (case both (required_str loc kv ''dish'') (required_str loc kv ''type'') of
        Inl e \<Rightarrow> Inl e
      | Inr (d, t) \<Rightarrow> Inr \<lparr>dish = d, type = t\<rparr>)"
| "validate_MenuItem loc _ = Inl [Wrong_type loc]"

text \<open>The items of a list, each at the position it has, written in unary.\<close>

fun validate_items :: "string list \<Rightarrow> json list \<Rightarrow> validation_error list + MenuItem list" where
  "validate_items loc [] = Inr []"
| "validate_items loc (j # js) =
     (case both (validate_MenuItem loc j) (validate_items (loc @ [''+'']) js) of
        Inl e \<Rightarrow> Inl e
      | Inr (x, xs) \<Rightarrow> Inr (x # xs))"

fun validate_MenuCreate :: "json \<Rightarrow> validation_error list + CanteenMenuDay" where
  "validate_MenuCreate (JObj kv) =
     (case both (required_str [''body''] kv ''date'')
             (case map_of kv ''items'' of
                None \<Rightarrow> Inr []
              | Some (JArr js) \<Rightarrow> validate_items [''body'', ''items''] js
              | Some _ \<Rightarrow> Inl [Wrong_type [''body'', ''items'']]) of
        Inl e \<Rightarrow> Inl e
      | Inr (d, xs) \<Rightarrow> Inr \<lparr>cmd_date = d, cmd_items = xs\<rparr>)"
| "validate_MenuCreate _ = Inl [Wrong_type [''body'']]"

fun validate_credentials :: "(string \<times> json) list \<Rightarrow> validation_error list + PronoteCredentials" where
  "validate_credentials kv =
     (case both (required_str [''body''] kv ''url'')
             (both (required_str [''body''] kv ''username'')
                   (required_str [''body''] kv ''password'')) of
        Inl e \<Rightarrow> Inl e
      | Inr (u, n, p) \<Rightarrow> Inr \<lparr>url = u, username = n, password = p\<rparr>)"

fun validate_TimetableRequest :: "json \<Rightarrow> validation_error list + TimetableRequest" where
  "validate_TimetableRequest (JObj kv) =
     (case both (validate_credentials kv)
             (both (optional_str [''body''] kv ''start'') (optional_str [''body''] kv ''end'')) of
        Inl e \<Rightarrow> Inl e
      | Inr (c, s, e) \<Rightarrow>
          Inr \<lparr>url = url c, username = username c, password = password c,
               tt_start = s, tt_end = e\<rparr>)"
| "validate_TimetableRequest _ = Inl [Wrong_type [''body'']]"

fun validate_AbsencesRequest :: "json \<Rightarrow> validation_error list + AbsencesRequest" where
  "validate_AbsencesRequest (JObj kv) =
     (case both (validate_credentials kv)
             (both (optional_str [''body''] kv ''start'') (optional_str [''body''] kv ''end'')) of
        Inl e \<Rightarrow> Inl e
      | Inr (c, s, e) \<Rightarrow>
          Inr \<lparr>url = url c, username = username c, password = password c,
               ab_start = s, ab_end = e\<rparr>)"
| "validate_AbsencesRequest _ = Inl [Wrong_type [''body'']]"

text \<open>
  The routes: the response to a request and the database after it. A body that fails
  validation is answered with status 422 and never reaches the handler.
\<close>

definition POST_api_menu ::
  "database option \<Rightarrow> json \<Rightarrow> MenuCreated http_result \<times> database option" where
  "POST_api_menu db body =
     (case validate_MenuCreate body of
        Inl errs \<Rightarrow> (HTTP_422 errs, db)
      | Inr payload \<Rightarrow> create_menu_day db payload)"

definition POST_api_pronote_timetable ::
  "date \<Rightarrow> database option \<Rightarrow> json \<Rightarrow> TimetableEntry list http_result \<times> database option" where
  "POST_api_pronote_timetable utcnow db body =
     (case validate_TimetableRequest body of
        Inl errs \<Rightarrow> (HTTP_422 errs, db)
      | Inr req \<Rightarrow> (get_pronote_timetable utcnow req, db))"

definition POST_api_pronote_absences ::
  "date \<Rightarrow> database option \<Rightarrow> json \<Rightarrow> AbsenceRecord list http_result \<times> database option" where
  "POST_api_pronote_absences utcnow db body =
     (case validate_AbsencesRequest body of
        Inl errs \<Rightarrow> (HTTP_422 errs, db)
      | Inr req \<Rightarrow> (get_pronote_absences utcnow req, db))"

section \<open>The timetable as specified\<close>

text \<open>
  The timetable in the words of the specification: one entry per calendar day from the
  start to the end, at most ten, the entry of index \<open>i\<close> taking subject and room at
  \<open>i mod 5\<close>, each in the slot from 08:00 to 09:30.
\<close>

fun days_upto :: "date \<Rightarrow> date \<Rightarrow> nat \<Rightarrow> date list" where
  "days_upto cur end_date 0 = []"
| "days_upto cur end_date (Suc n) =
     (if date_le cur end_date
      then cur # (case next_day cur of Inl e \<Rightarrow> [] | Inr cur' \<Rightarrow> days_upto cur' end_date n)
      else [])"

definition slot_entry :: "nat \<Rightarrow> date \<Rightarrow> TimetableEntry" where
  "slot_entry i d =
     \<lparr>te_date = strftime_date d, te_start = ''08:00'', te_end = ''09:30'',
      subject = subjects ! (i mod 5), room = Some (rooms ! (i mod 5)),
      teacher = Some ''M./Mme X'', group = Some ''2nde A''\<rparr>"

definition spec_timetable :: "date \<Rightarrow> date \<Rightarrow> TimetableEntry list" where
  "spec_timetable start_date end_date =
     map (\<lambda>p. slot_entry (fst p) (snd p)) (enumerate 0 (days_upto start_date end_date 10))"

section \<open>Digits, and parsing what was formatted\<close>

lemma is_digit_cases:
  "is_digit c \<Longrightarrow> c = CHR ''0'' \<or> c = CHR ''1'' \<or> c = CHR ''2'' \<or> c = CHR ''3'' \<or> c = CHR ''4'' \<or>
     c = CHR ''5'' \<or> c = CHR ''6'' \<or> c = CHR ''7'' \<or> c = CHR ''8'' \<or> c = CHR ''9''"
  by (simp add: is_digit_def)

lemma digit_code:
  assumes "is_digit c"
  shows "48 \<le> (of_char c :: nat) \<and> (of_char c :: nat) < 58"
  using is_digit_cases [OF assms] by (elim disjE) simp_all

lemma digit_val_lt: "is_digit c \<Longrightarrow> digit_val c < 10"
  using digit_code [of c] unfolding digit_val_def by linarith

lemma digit_char_val: "is_digit c \<Longrightarrow> digit_char (digit_val c) = c"
proof -
  assume "is_digit c"
  then have "48 + (of_char c - 48) = (of_char c :: nat)" using digit_code [of c] by simp
  then show ?thesis by (simp add: digit_val_def digit_char_def)
qed

lemma quot_rem:
  fixes q r k :: nat
  assumes "r < k"
  shows "(k * q + r) div k = q" "(k * q + r) mod k = r"
  using assms by simp_all

lemma pad2_digits:
  assumes "is_digit a" "is_digit b"
  shows "pad2 (10 * digit_val a + digit_val b) = [a, b]"
  using assms by (simp add: pad2_def quot_rem digit_val_lt digit_char_val)

lemma four_digits:
  fixes a b c d :: nat
  assumes "a < 10" "b < 10" "c < 10" "d < 10"
  shows "(1000 * a + 100 * b + 10 * c + d) div 1000 mod 10 = a"
    "(1000 * a + 100 * b + 10 * c + d) div 100 mod 10 = b"
    "(1000 * a + 100 * b + 10 * c + d) div 10 mod 10 = c"
    "(1000 * a + 100 * b + 10 * c + d) mod 10 = d"
proof -
  let ?n = "1000 * a + 100 * b + 10 * c + d"
  have e1: "?n = 10 * (100 * a + 10 * b + c) + d" by simp
  have e2: "?n = 100 * (10 * a + b) + (10 * c + d)" by simp
  have e3: "?n = 1000 * a + (100 * b + 10 * c + d)" by simp
  have r2: "10 * c + d < 100" and r3: "100 * b + 10 * c + d < 1000" using assms by linarith+
  have d1: "?n div 10 = 10 * (10 * a + b) + c" using quot_rem(1) [OF assms(4), of "100 * a + 10 * b + c"] by (simp only: e1) simp
  have d2: "?n div 100 = 10 * a + b" using quot_rem(1) [OF r2, of "10 * a + b"] by (simp only: e2)
  have d3: "?n div 1000 = a" using quot_rem(1) [OF r3, of a] by (simp only: e3)
  show "?n div 1000 mod 10 = a" using assms(1) by (simp only: d3) simp
  show "?n div 100 mod 10 = b" using quot_rem(2) [OF assms(2), of a] by (simp only: d2)
  show "?n div 10 mod 10 = c" using quot_rem(2) [OF assms(3), of "10 * a + b"] by (simp only: d1)
  show "?n mod 10 = d" using quot_rem(2) [OF assms(4), of "100 * a + 10 * b + c"] by (simp only: e1)
qed

lemma pad4_digits:
  assumes "is_digit a" "is_digit b" "is_digit c" "is_digit d"
  shows "pad4 (1000 * digit_val a + 100 * digit_val b + 10 * digit_val c + digit_val d) = [a, b, c, d]"
  using assms by (simp add: pad4_def four_digits digit_val_lt digit_char_val)


lemma digit_val_simps:
  "digit_val CHR ''0'' = 0" "digit_val CHR ''1'' = 1" "digit_val CHR ''2'' = 2"
  "digit_val CHR ''3'' = 3" "digit_val CHR ''4'' = 4" "digit_val CHR ''5'' = 5"
  "digit_val CHR ''6'' = 6" "digit_val CHR ''7'' = 7" "digit_val CHR ''8'' = 8"
  "digit_val CHR ''9'' = 9"
  by (simp_all add: digit_val_def)

lemma match_m_two:
  assumes "is_digit a" "is_digit b" "1 \<le> 10 * digit_val a + digit_val b"
    "10 * digit_val a + digit_val b \<le> 12"
  shows "match_m (a # b # rest) = Some (10 * digit_val a + digit_val b, rest)"
  using is_digit_cases [OF assms(1)] is_digit_cases [OF assms(2)] assms(3,4)
  by (elim disjE; simp add: digit_val_simps)

lemma match_d_two:
  assumes "is_digit a" "is_digit b" "1 \<le> 10 * digit_val a + digit_val b"
    "10 * digit_val a + digit_val b \<le> 31"
  shows "match_d (a # b # rest) = Some (10 * digit_val a + digit_val b, rest)"
  using is_digit_cases [OF assms(1)] is_digit_cases [OF assms(2)] assms(3,4)
  by (elim disjE; simp add: digit_val_simps is_digit_def)


lemma days_in_month_le: "days_in_month y m \<le> 31"
  by simp

lemma new_date_ok:
  assumes "1 \<le> y" "y \<le> 9999" "1 \<le> m" "m \<le> 12" "1 \<le> d" "d \<le> days_in_month y m"
  shows "new_date y m d = Inr \<lparr>year = y, month = m, day = d\<rparr>"
proof -
  have "\<not> (y < 1 \<or> 9999 < y)" "\<not> (m < 1 \<or> 12 < m)" "\<not> (d < 1 \<or> days_in_month y m < d)"
    using assms by linarith+
  then show ?thesis unfolding new_date_def by (simp only: if_False)
qed

lemma first_digit_not_zero:
  assumes "is_digit c" and "c \<noteq> CHR ''0''"
  shows "1 \<le> digit_val c"
  using is_digit_cases [OF assms(1)] assms(2) by (elim disjE) (simp_all add: digit_val_simps)

lemma iso_date_parse_digits:
  assumes "iso_date [y1, y2, y3, y4, h1, m1, m2, h2, d1, d2]"
  shows "strptime_date [y1, y2, y3, y4, h1, m1, m2, h2, d1, d2] =
    Inr \<lparr>year = 1000 * digit_val y1 + 100 * digit_val y2 + 10 * digit_val y3 + digit_val y4,
         month = 10 * digit_val m1 + digit_val m2, day = 10 * digit_val d1 + digit_val d2\<rparr>"
proof -
  let ?Y = "1000 * digit_val y1 + 100 * digit_val y2 + 10 * digit_val y3 + digit_val y4"
  let ?M = "10 * digit_val m1 + digit_val m2"
  let ?D = "10 * digit_val d1 + digit_val d2"
  have dg: "is_digit y1" "is_digit y2" "is_digit y3" "is_digit y4" "is_digit m1" "is_digit m2"
      "is_digit d1" "is_digit d2" and h: "h1 = CHR ''-''" "h2 = CHR ''-''"
    and rng: "1 \<le> ?Y" "1 \<le> ?M" "?M \<le> 12" "1 \<le> ?D" "?D \<le> days_in_month ?Y ?M"
    using assms by simp_all
  have Y: "?Y \<le> 9999" using dg(1-4) [THEN digit_val_lt] by linarith
  have D: "?D \<le> 31" using rng(5) days_in_month_le [of ?Y ?M] by (rule order_trans)
  have mm: "match_m (m1 # m2 # h2 # [d1, d2]) = Some (?M, h2 # [d1, d2])"
    using dg(5,6) rng(2,3) by (rule match_m_two)
  have md: "match_d (d1 # d2 # []) = Some (?D, [])"
    using dg(7,8) rng(4) D by (rule match_d_two)
  have "match_Ymd [y1, y2, y3, y4, h1, m1, m2, h2, d1, d2] = Some (?Y, ?M, ?D, [])"
    unfolding match_Ymd_def using dg(1-4) h mm md by simp
  then show ?thesis
    unfolding strptime_date_def using new_date_ok [OF rng(1) Y rng(2-5)] by simp
qed

lemma iso_date_parses:
  assumes "iso_date s"
  shows "\<exists>d. strptime_date s = Inr d"
proof -
  obtain y1 y2 y3 y4 h1 m1 m2 h2 d1 d2 where s: "s = [y1, y2, y3, y4, h1, m1, m2, h2, d1, d2]"
    using assms by (rule iso_date.elims(2))
  show ?thesis using iso_date_parse_digits [of y1 y2 y3 y4 h1 m1 m2 h2 d1 d2] assms
    unfolding s by blast
qed

lemma iso_date_roundtrip:
  assumes "iso_date s" and "''1000-01-01'' \<le> s"
  shows "\<exists>d. strptime_date s = Inr d \<and> strftime_date d = s"
proof -
  obtain y1 y2 y3 y4 h1 m1 m2 h2 d1 d2 where s: "s = [y1, y2, y3, y4, h1, m1, m2, h2, d1, d2]"
    using assms(1) by (rule iso_date.elims(2))
  let ?Y = "1000 * digit_val y1 + 100 * digit_val y2 + 10 * digit_val y3 + digit_val y4"
  let ?M = "10 * digit_val m1 + digit_val m2"
  let ?D = "10 * digit_val d1 + digit_val d2"
  have dg: "is_digit y1" "is_digit y2" "is_digit y3" "is_digit y4" "is_digit m1" "is_digit m2"
      "is_digit d1" "is_digit d2" and h: "h1 = CHR ''-''" "h2 = CHR ''-''"
    using assms(1) unfolding s by simp_all
  have p: "strptime_date s = Inr \<lparr>year = ?Y, month = ?M, day = ?D\<rparr>"
    using assms(1) unfolding s by (rule iso_date_parse_digits)
  have "y1 \<noteq> CHR ''0''" using assms(2) unfolding s by auto
  then have "1 \<le> digit_val y1" using dg(1) by (intro first_digit_not_zero)
  then have "\<not> ?Y < 10" "\<not> ?Y < 100" "\<not> ?Y < 1000" by linarith+
  then have "strftime_Y ?Y = pad4 ?Y" unfolding strftime_Y_def by (simp only: if_False)
  then have "strftime_date \<lparr>year = ?Y, month = ?M, day = ?D\<rparr> = s"
    unfolding strftime_date_def s using dg h by (simp add: pad2_digits pad4_digits)
  with p show ?thesis by blast
qed

section \<open>Evaluation of the timetable on the first days of 2024\<close>

lemma strptime_2024_01_01:
  "strptime_date ''2024-01-01'' = Inr \<lparr>year = 2024, month = 1, day = 1\<rparr>"
  by code_simp

lemma strptime_2024_01_03:
  "strptime_date ''2024-01-03'' = Inr \<lparr>year = 2024, month = 1, day = 3\<rparr>"
  by code_simp

lemma date_less_2024: "date_less \<lparr>year = 2024, month = 1, day = 3\<rparr> \<lparr>year = 2024, month = 1, day = 1\<rparr> = False"
  by code_simp

lemma loop_2024_01_01_to_03:
  "timetable_loop \<lparr>year = 2024, month = 1, day = 1\<rparr> \<lparr>year = 2024, month = 1, day = 3\<rparr> 0 [] =
   Inr [\<lparr>te_date = ''2024-01-01'', te_start = ''08:00'', te_end = ''09:30'',
         subject = ''Maths'', room = Some ''B201'',
         teacher = Some ''M./Mme X'', group = Some ''2nde A''\<rparr>,
        \<lparr>te_date = ''2024-01-02'', te_start = ''08:00'', te_end = ''09:30'',
         subject = [CHR ''F'', CHR ''r'', CHR ''a'', CHR ''n'', CHR 0xE7, CHR ''a'', CHR ''i'', CHR ''s''],
         room = Some ''A105'', teacher = Some ''M./Mme X'', group = Some ''2nde A''\<rparr>,
        \<lparr>te_date = ''2024-01-03'', te_start = ''08:00'', te_end = ''09:30'',
         subject = ''Physique'', room = Some ''Lab1'',
         teacher = Some ''M./Mme X'', group = Some ''2nde A''\<rparr>]"
  by code_simp

text \<open>
  Claim C5. A timetable request with start 2024-01-01 and end 2024-01-03, whatever its
  credentials and whatever the day it is made, is answered with exactly three entries,
  dated 2024-01-01, 2024-01-02 and 2024-01-03 in that order, with the first three
  subjects of the list in their order, each from 08:00 to 09:30.
\<close>

theorem timetable_three_days:
  "get_pronote_timetable utcnow
     \<lparr>url = u, username = n, password = p,
      tt_start = Some ''2024-01-01'', tt_end = Some ''2024-01-03''\<rparr> =
   HTTP_200
     [\<lparr>te_date = ''2024-01-01'', te_start = ''08:00'', te_end = ''09:30'',
       subject = ''Maths'', room = Some ''B201'',
       teacher = Some ''M./Mme X'', group = Some ''2nde A''\<rparr>,
      \<lparr>te_date = ''2024-01-02'', te_start = ''08:00'', te_end = ''09:30'',
       subject = [CHR ''F'', CHR ''r'', CHR ''a'', CHR ''n'', CHR 0xE7, CHR ''a'', CHR ''i'', CHR ''s''],
       room = Some ''A105'', teacher = Some ''M./Mme X'', group = Some ''2nde A''\<rparr>,
      \<lparr>te_date = ''2024-01-03'', te_start = ''08:00'', te_end = ''09:30'',
       subject = ''Physique'', room = Some ''Lab1'',
       teacher = Some ''M./Mme X'', group = Some ''2nde A''\<rparr>]"
proof -
  have "timetable_body utcnow
     \<lparr>url = u, username = n, password = p,
      tt_start = Some ''2024-01-01'', tt_end = Some ''2024-01-03''\<rparr> =
     timetable_loop \<lparr>year = 2024, month = 1, day = 1\<rparr> \<lparr>year = 2024, month = 1, day = 3\<rparr> 0 []"
    unfolding timetable_body_def
    by (simp only: TimetableRequest.simps parse_or.simps strptime_2024_01_01 strptime_2024_01_03
        sum.case Let_def date_less_2024 if_False list.distinct not_False_eq_True if_True)
  then show ?thesis
    unfolding get_pronote_timetable_def by (simp only: loop_2024_01_01_to_03 sum.case)
qed

section \<open>The absences handler\<close>

lemma iso_date_not_empty: "iso_date s \<Longrightarrow> s \<noteq> []"
  by auto

lemma absences_parsed:
  assumes "s \<noteq> []" "strptime_date s = Inr d"
  shows "get_pronote_absences utcnow \<lparr>url = u, username = n, password = p, ab_start = Some s, ab_end = e\<rparr> =
    HTTP_200 [\<lparr>ar_date = strftime_date d, ar_start = ''10:00'', ar_end = ''12:00'',
               justified = False, reason = None\<rparr>]"
  using assms by (simp add: get_pronote_absences_def)




text \<open>
  In general the record of a start that parses carries the date as \<open>strftime\<close> writes
  it (\<open>absences_parsed\<close>), and every valid date parses (\<open>iso_date_parses\<close>).
\<close>

lemma absences_of_valid_date:
  assumes "iso_date s"
  shows "\<exists>d. strptime_date s = Inr d \<and>
    get_pronote_absences utcnow
      \<lparr>url = u, username = n, password = p, ab_start = Some s, ab_end = e\<rparr> =
    HTTP_200 [\<lparr>ar_date = strftime_date d, ar_start = ''10:00'', ar_end = ''12:00'',
               justified = False, reason = None\<rparr>]"
proof -
  obtain d where d: "strptime_date s = Inr d" using iso_date_parses [OF assms] by blast
  show ?thesis
    using absences_parsed [OF iso_date_not_empty [OF assms] d] d by blast
qed

text \<open>
  \<open>strptime\<close> also accepts a month or a day written without its leading zero; the record
  then carries the zero-padded date, not the string of the request.
\<close>

lemma absences_unpadded_start:
  "get_pronote_absences utcnow
     \<lparr>url = u, username = n, password = p, ab_start = Some ''2024-3-5'', ab_end = e\<rparr> =
   HTTP_200 [\<lparr>ar_date = ''2024-03-05'', ar_start = ''10:00'', ar_end = ''12:00'',
              justified = False, reason = None\<rparr>]"
proof -
  have ne: "''2024-3-5'' \<noteq> []" by simp
  have p: "strptime_date ''2024-3-5'' = Inr \<lparr>year = 2024, month = 3, day = 5\<rparr>"
    by code_simp
  have f: "strftime_date \<lparr>year = 2024, month = 3, day = 5\<rparr> = ''2024-03-05''"
    by code_simp
  show ?thesis using absences_parsed [OF ne p, of utcnow u n p e] by (simp only: f)
qed

section \<open>Credentials are neither used nor stored\<close>

lemma POST_api_menu_store:
  "snd (POST_api_menu (Some st) body) = Some st \<or>
   (\<exists>d xs. snd (POST_api_menu (Some st) body) =
      Some (st\<lparr>collections := (collections st)
                 (''canteenmenuday'' := collections st ''canteenmenuday'' @
                    [\<lparr>oid = next_oid st,
                      doc_fields = [(''date'', BStr d), (''items'', BList (map dump_MenuItem xs))]\<rparr>]),
               next_oid := next_oid st + 1\<rparr>))"
  by (auto simp: POST_api_menu_def create_menu_day_def create_document_def model_dump_def
      split: sum.splits)

text \<open>
  Claim C9. Two timetable requests, or two absences requests, that agree on start and end
  get the same response whatever their url, username and password. Neither Pronote route
  changes the database, and the only route that writes, \<open>POST /api/menu\<close>, leaves the
  database as it was or adds one document whose fields are exactly the date and the
  items of the validated menu: no credential reaches storage.
\<close>

theorem credentials_not_used:
  "get_pronote_timetable utcnow
     \<lparr>url = u1, username = n1, password = p1, tt_start = s, tt_end = e\<rparr> =
   get_pronote_timetable utcnow
     \<lparr>url = u2, username = n2, password = p2, tt_start = s, tt_end = e\<rparr> \<and>
   get_pronote_absences utcnow
     \<lparr>url = u1, username = n1, password = p1, ab_start = s, ab_end = e\<rparr> =
   get_pronote_absences utcnow
     \<lparr>url = u2, username = n2, password = p2, ab_start = s, ab_end = e\<rparr> \<and>
   snd (POST_api_pronote_timetable utcnow db body) = db \<and>
   snd (POST_api_pronote_absences utcnow db body) = db \<and>
   snd (POST_api_menu None body) = None \<and>
   (snd (POST_api_menu (Some st) body) = Some st \<or>
    (\<exists>d xs. snd (POST_api_menu (Some st) body) =
      Some (st\<lparr>collections := (collections st)
                 (''canteenmenuday'' := collections st ''canteenmenuday'' @
                    [\<lparr>oid = next_oid st,
                      doc_fields = [(''date'', BStr d), (''items'', BList (map dump_MenuItem xs))]\<rparr>]),
               next_oid := next_oid st + 1\<rparr>)))"
proof (intro conjI)
  show "get_pronote_timetable utcnow
     \<lparr>url = u1, username = n1, password = p1, tt_start = s, tt_end = e\<rparr> =
   get_pronote_timetable utcnow
     \<lparr>url = u2, username = n2, password = p2, tt_start = s, tt_end = e\<rparr>"
    by (simp add: get_pronote_timetable_def timetable_body_def cong: sum.case_cong)
  show "get_pronote_absences utcnow
     \<lparr>url = u1, username = n1, password = p1, ab_start = s, ab_end = e\<rparr> =
   get_pronote_absences utcnow
     \<lparr>url = u2, username = n2, password = p2, ab_start = s, ab_end = e\<rparr>"
    by (simp add: get_pronote_absences_def)
  show "snd (POST_api_pronote_timetable utcnow db body) = db"
    by (simp add: POST_api_pronote_timetable_def split: sum.splits)
  show "snd (POST_api_pronote_absences utcnow db body) = db"
    by (simp add: POST_api_pronote_absences_def split: sum.splits)
  show "snd (POST_api_menu None body) = None"
    by (simp add: POST_api_menu_def create_menu_day_def create_document_def split: sum.splits)
  show "snd (POST_api_menu (Some st) body) = Some st \<or>
    (\<exists>d xs. snd (POST_api_menu (Some st) body) =
      Some (st\<lparr>collections := (collections st)
                 (''canteenmenuday'' := collections st ''canteenmenuday'' @
                    [\<lparr>oid = next_oid st,
                      doc_fields = [(''date'', BStr d), (''items'', BList (map dump_MenuItem xs))]\<rparr>]),
               next_oid := next_oid st + 1\<rparr>))"
    by (rule POST_api_menu_store)
qed

section \<open>Rejection of invalid menu bodies\<close>

lemma missing_date:
  assumes "map_of kv ''date'' = None"
  shows "\<exists>errs. validate_MenuCreate (JObj kv) = Inl (Missing [''body'', ''date''] # errs)"
proof -
  let ?r = "case map_of kv ''items'' of
                None \<Rightarrow> Inr []
              | Some (JArr js) \<Rightarrow> validate_items [''body'', ''items''] js
              | Some _ \<Rightarrow> Inl [Wrong_type [''body'', ''items'']]"
  show ?thesis
  proof (cases ?r)
    case (Inl e)
    then show ?thesis using assms by simp
  next
    case (Inr xs)
    then show ?thesis using assms by simp
  qed
qed

text \<open>
  Claim C2. A body of \<open>POST /api/menu\<close> that fails validation is answered with status
  422 and the failures, and the database after the request is the database before it;
  in particular a body without the required field \<open>date\<close> is rejected so, with the
  missing field reported.
\<close>

theorem invalid_menu_rejected:
  "(validate_MenuCreate body = Inl errs \<longrightarrow> POST_api_menu db body = (HTTP_422 errs, db)) \<and>
   (map_of kv ''date'' = None \<longrightarrow>
      (\<exists>errs'. POST_api_menu db (JObj kv) = (HTTP_422 (Missing [''body'', ''date''] # errs'), db)))"
proof (intro conjI impI)
  assume "validate_MenuCreate body = Inl errs"
  then show "POST_api_menu db body = (HTTP_422 errs, db)" by (simp add: POST_api_menu_def)
next
  assume "map_of kv ''date'' = None"
  from missing_date [OF this] obtain errs' where
    "validate_MenuCreate (JObj kv) = Inl (Missing [''body'', ''date''] # errs')" by blast
  then have "POST_api_menu db (JObj kv) = (HTTP_422 (Missing [''body'', ''date''] # errs'), db)"
    by (simp add: POST_api_menu_def)
  then show "\<exists>errs'. POST_api_menu db (JObj kv) = (HTTP_422 (Missing [''body'', ''date''] # errs'), db)"
    by blast
qed

theorem invalid_menu_rejected_witness:
  "validate_MenuCreate (JObj [(''items'', JArr [])]) = Inl [Missing [''body'', ''date'']] \<and>
   map_of [(''items'', JArr [])] ''date'' = None \<and>
   POST_api_menu (Some \<lparr>collections = (\<lambda>c. []), next_oid = 0\<rparr>) (JObj [(''items'', JArr [])]) =
     (HTTP_422 [Missing [''body'', ''date'']], Some \<lparr>collections = (\<lambda>c. []), next_oid = 0\<rparr>)"
  using invalid_menu_rejected [of "JObj [(''items'', JArr [])]" "[Missing [''body'', ''date'']]"
      "Some \<lparr>collections = (\<lambda>c. []), next_oid = 0\<rparr>" "[(''items'', JArr [])]"]
  by simp


section \<open>Dates that do not parse\<close>

lemma create_menu_day_connected:
  "create_menu_day (Some st) payload =
     (HTTP_200 \<lparr>success = True, created_id = oid_str (next_oid st)\<rparr>,
      Some (st\<lparr>collections := (collections st)
                 (''canteenmenuday'' := collections st ''canteenmenuday'' @
                    [\<lparr>oid = next_oid st, doc_fields = model_dump payload\<rparr>]),
               next_oid := next_oid st + 1\<rparr>))"
  by (simp add: create_menu_day_def create_document_def)

text \<open>
  The empty string does not parse as a date, and a request that supplies it as start is
  answered with status 200 for today: the handlers test \<open>if req.start\<close>, which is
  false for the empty string, before they parse.
\<close>

theorem empty_start_is_accepted:
  "strptime_date [] = Inl (ValueError_no_match []) \<and>
   get_pronote_absences \<lparr>year = 2026, month = 11, day = 4\<rparr>
     \<lparr>url = ''https://pronote.example'', username = ''eleve'', password = ''secret'',
      ab_start = Some [], ab_end = None\<rparr> =
   HTTP_200 [\<lparr>ar_date = ''2026-11-04'', ar_start = ''10:00'', ar_end = ''12:00'',
              justified = False, reason = None\<rparr>]"
  by code_simp

text \<open>
  Claim C10, amended. A non-empty start that \<open>strptime\<close> rejects makes either Pronote
  handler answer status 500 carrying the failure of the parse, and so does such an end of
  a timetable request whose start is absent, empty or parses; whereas the menu accepts
  any string as a date, at validation and in the handler.
\<close>

theorem unparsable_date_is_500:
  assumes "s \<noteq> []" and "strptime_date s = Inl err"
  shows "get_pronote_absences utcnow
           \<lparr>url = u, username = n, password = p, ab_start = Some s, ab_end = e\<rparr> = HTTP_500 err \<and>
         get_pronote_timetable utcnow
           \<lparr>url = u, username = n, password = p, tt_start = Some s, tt_end = e\<rparr> = HTTP_500 err \<and>
         (parse_or st utcnow = Inr d \<longrightarrow>
            get_pronote_timetable utcnow
              \<lparr>url = u, username = n, password = p, tt_start = st, tt_end = Some s\<rparr> = HTTP_500 err) \<and>
         validate_MenuCreate (JObj [(''date'', JStr s)]) = Inr \<lparr>cmd_date = s, cmd_items = []\<rparr> \<and>
         fst (create_menu_day (Some db) \<lparr>cmd_date = s, cmd_items = xs\<rparr>) =
           HTTP_200 \<lparr>success = True, created_id = oid_str (next_oid db)\<rparr>"
  using assms
  by (simp add: get_pronote_absences_def get_pronote_timetable_def timetable_body_def
      create_menu_day_connected)

theorem unparsable_date_is_500_witness:
  "''05/03/2024'' \<noteq> [] \<and>
   strptime_date ''05/03/2024'' = Inl (ValueError_no_match ''05/03/2024'') \<and>
   get_pronote_absences \<lparr>year = 2026, month = 11, day = 4\<rparr>
     \<lparr>url = ''https://pronote.example'', username = ''eleve'', password = ''secret'',
      ab_start = Some ''05/03/2024'', ab_end = None\<rparr> =
     HTTP_500 (ValueError_no_match ''05/03/2024'') \<and>
   get_pronote_timetable \<lparr>year = 2026, month = 11, day = 4\<rparr>
     \<lparr>url = ''https://pronote.example'', username = ''eleve'', password = ''secret'',
      tt_start = Some ''05/03/2024'', tt_end = None\<rparr> =
     HTTP_500 (ValueError_no_match ''05/03/2024'') \<and>
   get_pronote_timetable \<lparr>year = 2026, month = 11, day = 4\<rparr>
     \<lparr>url = ''https://pronote.example'', username = ''eleve'', password = ''secret'',
      tt_start = None, tt_end = Some ''05/03/2024''\<rparr> =
     HTTP_500 (ValueError_no_match ''05/03/2024'')"
proof -
  have h1: "''05/03/2024'' \<noteq> []" by simp
  have h2: "strptime_date ''05/03/2024'' = Inl (ValueError_no_match ''05/03/2024'')"
    by code_simp
  have h3: "parse_or None \<lparr>year = 2026, month = 11, day = 4\<rparr> = Inr \<lparr>year = 2026, month = 11, day = 4\<rparr>"
    by simp
  show ?thesis
    using h1 h2 h3
      unparsable_date_is_500 [OF h1 h2, of "\<lparr>year = 2026, month = 11, day = 4\<rparr>"
        "''https://pronote.example''" "''eleve''" "''secret''" None None
        "\<lparr>year = 2026, month = 11, day = 4\<rparr>"]
    by simp
qed

text \<open>The empty string as start or end is the same as none: the handlers use today.\<close>

lemma empty_start_means_today:
  "get_pronote_absences utcnow
     \<lparr>url = u, username = n, password = p, ab_start = Some [], ab_end = e\<rparr> =
   get_pronote_absences utcnow
     \<lparr>url = u, username = n, password = p, ab_start = None, ab_end = e\<rparr> \<and>
   get_pronote_timetable utcnow
     \<lparr>url = u, username = n, password = p, tt_start = Some [], tt_end = e\<rparr> =
   get_pronote_timetable utcnow
     \<lparr>url = u, username = n, password = p, tt_start = None, tt_end = e\<rparr> \<and>
   get_pronote_timetable utcnow
     \<lparr>url = u, username = n, password = p, tt_start = st, tt_end = Some []\<rparr> =
   get_pronote_timetable utcnow
     \<lparr>url = u, username = n, password = p, tt_start = st, tt_end = None\<rparr>"
  by (simp add: get_pronote_absences_def get_pronote_timetable_def timetable_body_def
      cong: sum.case_cong)

section \<open>Serialization of stored menus\<close>

lemma traverse_dump_items: "traverse MenuItem_of (map dump_MenuItem xs) = Inr xs"
  by (induction xs) (simp_all add: dump_MenuItem_def)

lemma serialize_dumped:
  "serialize_menu \<lparr>oid = i, doc_fields = model_dump payload\<rparr> =
     Inr \<lparr>mo_id = oid_str i, mo_date = cmd_date payload, mo_items = cmd_items payload\<rparr>"
  by (simp add: serialize_menu_def doc_get_def model_dump_def traverse_dump_items)


lemma traverse_append:
  "traverse f (xs @ [x]) =
     (case traverse f xs of
        Inl e \<Rightarrow> Inl e
      | Inr ys \<Rightarrow> (case f x of Inl e \<Rightarrow> Inl e | Inr y \<Rightarrow> Inr (ys @ [y])))"
  by (induction xs) (auto split: sum.splits)

lemma traverse_Inr:
  assumes "traverse f xs = Inr ys"
  shows "list_all2 (\<lambda>x y. f x = Inr y) xs ys"
  using assms
proof (induction xs arbitrary: ys)
  case Nil
  then show ?case by simp
next
  case (Cons x xs)
  then show ?case by (auto split: sum.splits)
qed

lemma traverse_map:
  assumes "\<And>x. x \<in> set xs \<Longrightarrow> f x = Inr (g x)"
  shows "traverse f xs = Inr (map g xs)"
  using assms by (induction xs) simp_all

section \<open>Today's menu\<close>

lemma take_one_filter:
  "take (Suc 0) (filter P xs) = (case List.find P xs of None \<Rightarrow> [] | Some x \<Rightarrow> [x])"
  by (induction xs) simp_all

lemma find_None: "list_all (\<lambda>x. \<not> P x) xs \<Longrightarrow> List.find P xs = None"
  by (induction xs) simp_all

lemma get_today_menu_find:
  "get_today_menu utcnow (Some st) =
     (case List.find (\<lambda>doc. doc_get doc ''date'' = Some (BStr (strftime_date utcnow)))
             (collections st ''canteenmenuday'') of
        None \<Rightarrow> HTTP_200 None
      | Some doc \<Rightarrow>
          (case serialize_menu doc of Inl e \<Rightarrow> HTTP_500 e | Inr out \<Rightarrow> HTTP_200 (Some out)))"
proof -
  have m: "matches (Field_eq ''date'' (BStr (strftime_date utcnow))) =
      (\<lambda>doc. doc_get doc ''date'' = Some (BStr (strftime_date utcnow)))"
    by (rule ext) simp
  show ?thesis
    unfolding get_today_menu_def get_documents_def Let_def m
    by (simp add: take_one_filter split: option.splits)
qed

text \<open>
  Claim C3. On a connected store in which no menu document has today's date (the UTC date
  as YYYY-MM-DD), \<open>GET /api/menu/today\<close> answers 200 with null, not an error. When
  some document has it, the answer is the serialization of the first such document in
  storage order, which for a document written by \<open>create_menu_day\<close> is the day with its
  identifier, date and items.
\<close>

theorem today_menu:
  "(list_all (\<lambda>doc. doc_get doc ''date'' \<noteq> Some (BStr (strftime_date utcnow)))
      (collections st ''canteenmenuday'') \<longrightarrow>
    get_today_menu utcnow (Some st) = HTTP_200 None) \<and>
   (List.find (\<lambda>doc. doc_get doc ''date'' = Some (BStr (strftime_date utcnow)))
      (collections st ''canteenmenuday'') = Some doc \<longrightarrow>
    get_today_menu utcnow (Some st) =
      (case serialize_menu doc of Inl e \<Rightarrow> HTTP_500 e | Inr out \<Rightarrow> HTTP_200 (Some out)) \<and>
    (\<forall>payload. doc_fields doc = model_dump payload \<longrightarrow>
       get_today_menu utcnow (Some st) =
         HTTP_200 (Some \<lparr>mo_id = oid_str (oid doc), mo_date = cmd_date payload,
                          mo_items = cmd_items payload\<rparr>)))"
proof (intro conjI impI allI)
  assume "list_all (\<lambda>doc. doc_get doc ''date'' \<noteq> Some (BStr (strftime_date utcnow)))
      (collections st ''canteenmenuday'')"
  then show "get_today_menu utcnow (Some st) = HTTP_200 None"
    by (simp add: get_today_menu_find find_None)
next
  assume f: "List.find (\<lambda>doc. doc_get doc ''date'' = Some (BStr (strftime_date utcnow)))
      (collections st ''canteenmenuday'') = Some doc"
  then show r: "get_today_menu utcnow (Some st) =
      (case serialize_menu doc of Inl e \<Rightarrow> HTTP_500 e | Inr out \<Rightarrow> HTTP_200 (Some out))"
    by (simp add: get_today_menu_find)
  fix payload
  assume "doc_fields doc = model_dump payload"
  then have "doc = \<lparr>oid = oid doc, doc_fields = model_dump payload\<rparr>" by simp
  then have "serialize_menu doc =
      Inr \<lparr>mo_id = oid_str (oid doc), mo_date = cmd_date payload, mo_items = cmd_items payload\<rparr>"
    using serialize_dumped [of "oid doc" payload] by simp
  with r show "get_today_menu utcnow (Some st) =
         HTTP_200 (Some \<lparr>mo_id = oid_str (oid doc), mo_date = cmd_date payload,
                          mo_items = cmd_items payload\<rparr>)"
    by simp
qed


lemma strftime_2026_11_04:
  "strftime_date \<lparr>year = 2026, month = 11, day = 4\<rparr> = ''2026-11-04''"
  by code_simp

theorem today_menu_witness:
  "list_all (\<lambda>doc. doc_get doc ''date'' \<noteq> Some (BStr (strftime_date \<lparr>year = 2026, month = 11, day = 4\<rparr>)))
     (collections \<lparr>collections = (\<lambda>c. []), next_oid = 0\<rparr> ''canteenmenuday'') \<and>
   get_today_menu \<lparr>year = 2026, month = 11, day = 4\<rparr>
     (Some \<lparr>collections = (\<lambda>c. []), next_oid = 0\<rparr>) = HTTP_200 None \<and>
   List.find (\<lambda>doc. doc_get doc ''date'' = Some (BStr (strftime_date \<lparr>year = 2026, month = 11, day = 4\<rparr>)))
     (collections
        \<lparr>collections = (\<lambda>c. [\<lparr>oid = 0, doc_fields = model_dump \<lparr>cmd_date = ''2026-11-03'', cmd_items = []\<rparr>\<rparr>,
                               \<lparr>oid = 1, doc_fields = model_dump
                                  \<lparr>cmd_date = ''2026-11-04'',
                                   cmd_items = [\<lparr>dish = ''Gratin'', type = ''plat''\<rparr>]\<rparr>\<rparr>]),
         next_oid = 2\<rparr> ''canteenmenuday'') =
     Some \<lparr>oid = 1, doc_fields = model_dump
            \<lparr>cmd_date = ''2026-11-04'', cmd_items = [\<lparr>dish = ''Gratin'', type = ''plat''\<rparr>]\<rparr>\<rparr> \<and>
   get_today_menu \<lparr>year = 2026, month = 11, day = 4\<rparr>
     (Some \<lparr>collections = (\<lambda>c. [\<lparr>oid = 0, doc_fields = model_dump \<lparr>cmd_date = ''2026-11-03'', cmd_items = []\<rparr>\<rparr>,
                               \<lparr>oid = 1, doc_fields = model_dump
                                  \<lparr>cmd_date = ''2026-11-04'',
                                   cmd_items = [\<lparr>dish = ''Gratin'', type = ''plat''\<rparr>]\<rparr>\<rparr>]),
         next_oid = 2\<rparr>) =
     HTTP_200 (Some \<lparr>mo_id = oid_str 1, mo_date = ''2026-11-04'',
                      mo_items = [\<lparr>dish = ''Gratin'', type = ''plat''\<rparr>]\<rparr>)"
proof -
  let ?now = "\<lparr>year = 2026, month = 11, day = 4\<rparr>"
  let ?e = "\<lparr>collections = (\<lambda>c. []), next_oid = 0\<rparr>"
  let ?p = "\<lparr>cmd_date = ''2026-11-04'', cmd_items = [\<lparr>dish = ''Gratin'', type = ''plat''\<rparr>]\<rparr>"
  let ?d = "\<lparr>oid = 1, doc_fields = model_dump ?p\<rparr>"
  let ?st = "\<lparr>collections = (\<lambda>c. [\<lparr>oid = 0, doc_fields = model_dump \<lparr>cmd_date = ''2026-11-03'', cmd_items = []\<rparr>\<rparr>, ?d]),
         next_oid = 2\<rparr>"
  have a: "list_all (\<lambda>doc. doc_get doc ''date'' \<noteq> Some (BStr (strftime_date ?now)))
     (collections ?e ''canteenmenuday'')" by simp
  have b: "List.find (\<lambda>doc. doc_get doc ''date'' = Some (BStr (strftime_date ?now)))
     (collections ?st ''canteenmenuday'') = Some ?d"
    by (simp add: strftime_2026_11_04 doc_get_def model_dump_def)
  have c: "doc_fields ?d = model_dump ?p" by simp
  from today_menu [of ?now ?e] a have r1: "get_today_menu ?now (Some ?e) = HTTP_200 None" by blast
  from today_menu [of ?now ?st ?d] b c have
    r2: "get_today_menu ?now (Some ?st) =
      HTTP_200 (Some \<lparr>mo_id = oid_str (oid ?d), mo_date = cmd_date ?p, mo_items = cmd_items ?p\<rparr>)"
    by blast
  from a r1 b r2 show ?thesis by simp
qed

section \<open>Menus of a range of dates\<close>


lemma get_menu_range_connected:
  "get_menu_range (Some st) start end' =
     (case traverse serialize_menu
             (take 100 (filter (matches (Field_range ''date'' start end'))
                (collections st ''canteenmenuday''))) of
        Inl e \<Rightarrow> HTTP_500 e
      | Inr outs \<Rightarrow> HTTP_200 outs)"
  by (simp add: get_menu_range_def get_documents_def)

lemma get_menu_range_200:
  assumes "get_menu_range (Some st) start end' = HTTP_200 outs"
  shows "traverse serialize_menu
           (take 100 (filter (matches (Field_range ''date'' start end'))
              (collections st ''canteenmenuday''))) = Inr outs"
  using assms unfolding get_menu_range_connected by (simp split: sum.splits)






section \<open>A menu read back after it is created\<close>

text \<open>
  Claim C1, amended. If the range query for the single date \<open>d\<close> answers 200 with fewer
  than 100 days, then creating a menu with date \<open>d\<close> and items \<open>xs\<close> succeeds, and
  the same query afterwards answers with the same days followed by a day that carries the
  new identifier, the date \<open>d\<close> and the items \<open>xs\<close> in their order.
\<close>

theorem menu_roundtrip:
  assumes "get_menu_range (Some st) d d = HTTP_200 olds" and "length olds < 100"
  shows "fst (create_menu_day (Some st) \<lparr>cmd_date = d, cmd_items = xs\<rparr>) =
           HTTP_200 \<lparr>success = True, created_id = oid_str (next_oid st)\<rparr> \<and>
         get_menu_range (snd (create_menu_day (Some st) \<lparr>cmd_date = d, cmd_items = xs\<rparr>)) d d =
           HTTP_200 (olds @ [\<lparr>mo_id = oid_str (next_oid st), mo_date = d, mo_items = xs\<rparr>])"
proof -
  let ?q = "Field_range ''date'' d d"
  let ?p = "\<lparr>cmd_date = d, cmd_items = xs\<rparr>"
  let ?new = "\<lparr>oid = next_oid st, doc_fields = model_dump ?p\<rparr>"
  let ?M = "filter (matches ?q) (collections st ''canteenmenuday'')"
  have t: "traverse serialize_menu (take 100 ?M) = Inr olds"
    using assms(1) by (rule get_menu_range_200)
  then have "length (take 100 ?M) = length olds"
    using traverse_Inr list_all2_lengthD by fastforce
  with assms(2) have len: "length ?M < 100" by simp
  then have t': "traverse serialize_menu ?M = Inr olds" using t by simp
  have new: "matches ?q ?new" by (simp add: doc_get_def model_dump_def)
  have "take 100 (?M @ [?new]) = ?M @ [?new]" using len by simp
  then have "get_menu_range (snd (create_menu_day (Some st) ?p)) d d =
      (case traverse serialize_menu (?M @ [?new]) of Inl e \<Rightarrow> HTTP_500 e | Inr outs \<Rightarrow> HTTP_200 outs)"
    using new by (simp add: create_menu_day_connected get_menu_range_connected)
  also have "\<dots> = HTTP_200 (olds @ [\<lparr>mo_id = oid_str (next_oid st), mo_date = d, mo_items = xs\<rparr>])"
    using serialize_dumped [of "next_oid st" ?p] by (simp add: traverse_append t')
  finally show ?thesis by (simp add: create_menu_day_connected)
qed


theorem menu_roundtrip_witness:
  "get_menu_range (Some \<lparr>collections = (\<lambda>c. []), next_oid = 0\<rparr>) ''2024-05-06'' ''2024-05-06'' =
     HTTP_200 [] \<and>
   length ([] :: MenuOut list) < 100 \<and>
   fst (create_menu_day (Some \<lparr>collections = (\<lambda>c. []), next_oid = 0\<rparr>)
          \<lparr>cmd_date = ''2024-05-06'',
           cmd_items = [\<lparr>dish = ''Salade'', type = ''entree''\<rparr>, \<lparr>dish = ''Gratin'', type = ''plat''\<rparr>]\<rparr>) =
     HTTP_200 \<lparr>success = True, created_id = oid_str 0\<rparr> \<and>
   get_menu_range
     (snd (create_menu_day (Some \<lparr>collections = (\<lambda>c. []), next_oid = 0\<rparr>)
             \<lparr>cmd_date = ''2024-05-06'',
              cmd_items = [\<lparr>dish = ''Salade'', type = ''entree''\<rparr>, \<lparr>dish = ''Gratin'', type = ''plat''\<rparr>]\<rparr>))
     ''2024-05-06'' ''2024-05-06'' =
     HTTP_200 [\<lparr>mo_id = oid_str 0, mo_date = ''2024-05-06'',
                mo_items = [\<lparr>dish = ''Salade'', type = ''entree''\<rparr>, \<lparr>dish = ''Gratin'', type = ''plat''\<rparr>]\<rparr>]"
proof -
  let ?e = "\<lparr>collections = (\<lambda>c. []), next_oid = 0\<rparr>"
  have h1: "get_menu_range (Some ?e) ''2024-05-06'' ''2024-05-06'' = HTTP_200 []"
    by (simp add: get_menu_range_connected)
  have h2: "length ([] :: MenuOut list) < 100" by simp
  show ?thesis
    using h1 h2
      menu_roundtrip [OF h1 h2,
        of "[\<lparr>dish = ''Salade'', type = ''entree''\<rparr>, \<lparr>dish = ''Gratin'', type = ''plat''\<rparr>]"]
    by simp
qed

lemma filter_map_all:
  assumes "\<And>x. P (f x)"
  shows "filter P (map f xs) = map f xs"
  using assms by (induction xs) simp_all

text \<open>
  With a hundred menus of a date already stored, a new menu of that date is created but
  the range query, limited to 100 documents in storage order, answers with the hundred
  old days only: no day of the response has the items just inserted.
\<close>

theorem hundred_menus_hide_the_new_one:
  "get_menu_range
     (snd (create_menu_day
        (Some \<lparr>collections = (\<lambda>c. [])(''canteenmenuday'' :=
                  map (\<lambda>i. \<lparr>oid = i, doc_fields =
                         model_dump \<lparr>cmd_date = ''2024-05-06'', cmd_items = []\<rparr>\<rparr>) [0..<100]),
               next_oid = 100\<rparr>)
        \<lparr>cmd_date = ''2024-05-06'', cmd_items = [\<lparr>dish = ''Gratin'', type = ''plat''\<rparr>]\<rparr>))
     ''2024-05-06'' ''2024-05-06'' =
   HTTP_200 (map (\<lambda>i. \<lparr>mo_id = oid_str i, mo_date = ''2024-05-06'', mo_items = []\<rparr>) [0..<100]) \<and>
   [\<lparr>dish = ''Gratin'', type = ''plat''\<rparr>] \<notin>
     set (map mo_items
       (map (\<lambda>i. \<lparr>mo_id = oid_str i, mo_date = ''2024-05-06'', mo_items = []\<rparr>) [0..<100]))"
proof -
  let ?mk = "\<lambda>i. \<lparr>oid = i, doc_fields = model_dump \<lparr>cmd_date = ''2024-05-06'', cmd_items = []\<rparr>\<rparr>"
  let ?q = "Field_range ''date'' ''2024-05-06'' ''2024-05-06''"
  let ?p = "\<lparr>cmd_date = ''2024-05-06'', cmd_items = [\<lparr>dish = ''Gratin'', type = ''plat''\<rparr>]\<rparr>"
  let ?out = "\<lambda>i. \<lparr>mo_id = oid_str i, mo_date = ''2024-05-06'', mo_items = []\<rparr>"
  have f: "filter (matches ?q) (map ?mk [0..<100]) = map ?mk [0..<100]"
    by (rule filter_map_all) (simp add: doc_get_def model_dump_def)
  have n: "matches ?q \<lparr>oid = 100, doc_fields = model_dump ?p\<rparr>"
    by (simp add: doc_get_def model_dump_def)
  have tk: "take 100 (map ?mk [0..<100] @ [\<lparr>oid = 100, doc_fields = model_dump ?p\<rparr>]) = map ?mk [0..<100]"
    by simp
  have "traverse serialize_menu (map ?mk [0..<100]) =
      Inr (map (\<lambda>doc. \<lparr>mo_id = oid_str (oid doc), mo_date = ''2024-05-06'', mo_items = []\<rparr>)
        (map ?mk [0..<100]))"
    by (rule traverse_map) (auto simp: serialize_dumped)
  then have tr: "traverse serialize_menu (map ?mk [0..<100]) = Inr (map ?out [0..<100])"
    by (simp add: comp_def)
  have "get_menu_range
     (snd (create_menu_day
        (Some \<lparr>collections = (\<lambda>c. [])(''canteenmenuday'' := map ?mk [0..<100]), next_oid = 100\<rparr>) ?p))
     ''2024-05-06'' ''2024-05-06'' = HTTP_200 (map ?out [0..<100])"
    by (simp only: create_menu_day_connected get_menu_range_connected snd_conv database.simps
        fun_upd_same filter_append f filter.simps n if_True tk tr sum.case)
  moreover have "[\<lparr>dish = ''Gratin'', type = ''plat''\<rparr>] \<notin> set (map mo_items (map ?out [0..<100]))"
    by auto
  ultimately show ?thesis by blast
qed

section \<open>The timetable loop\<close>

lemma pad2_slot: "pad2 8 = ''08''" "pad2 0 = ''00''" "pad2 9 = ''09''" "pad2 30 = ''30''"
  by code_simp+

lemma timetable_entry_eq:
  "timetable_entry cur i =
     Inr \<lparr>te_date = strftime_date cur, te_start = ''08:00'', te_end = ''09:30'',
          subject = subjects ! (i mod 5), room = Some (rooms ! (i mod 5)),
          teacher = Some ''M./Mme X'', group = Some ''2nde A''\<rparr>"
  by (simp add: timetable_entry_def combine_def datetime_add_def strftime_HM_def pad2_slot
      subjects_def rooms_def)

lemma next_day_greater:
  assumes "next_day d = Inr d'"
  shows "date_less d d'"
  using assms by (auto simp: next_day_def split: if_splits simp del: days_in_month.simps)

lemma next_day_defined:
  assumes "date_less d \<lparr>year = 9999, month = 12, day = 31\<rparr>"
  shows "\<exists>d'. next_day d = Inr d'"
proof (cases "day d < days_in_month (year d) (month d) \<or> month d < 12 \<or> year d < 9999")
  case True
  then show ?thesis by (auto simp: next_day_def simp del: days_in_month.simps)
next
  case False
  then have "year d = 9999" "month d = 12" "days_in_month (year d) (month d) \<le> day d"
    using assms by auto
  then show ?thesis using assms by simp
qed

lemma date_less_trans: "date_less a b \<Longrightarrow> date_less b c \<Longrightarrow> date_less a c"
  by auto

lemma date_less_irrefl: "\<not> date_less a a"
  by simp

lemma date_le_less_trans: "date_le a b \<Longrightarrow> date_less b c \<Longrightarrow> date_less a c"
  by auto

lemma not_date_le_next:
  assumes "next_day d = Inr d'"
  shows "\<not> date_le d' d"
  using next_day_greater [OF assms] by auto


lemma timetable_loop_refines:
  assumes "date_less end_date \<lparr>year = 9999, month = 12, day = 31\<rparr>" and "i \<le> 10"
  shows "timetable_loop cur end_date i results =
    Inr (results @ map (\<lambda>p. slot_entry (fst p) (snd p))
      (enumerate i (days_upto cur end_date (10 - i))))"
  using assms
proof (induction cur end_date i results rule: timetable_loop.induct)
  case (1 cur end_date i results)
  show ?case
  proof (cases "date_le cur end_date \<and> i < 10")
    case True
    then have "date_less cur \<lparr>year = 9999, month = 12, day = 31\<rparr>"
      using "1.prems"(1) date_le_less_trans by blast
    then obtain cur' where n: "next_day cur = Inr cur'"
      using next_day_defined by blast
    have e: "timetable_entry cur i = Inr (slot_entry i cur)"
      by (simp add: timetable_entry_eq slot_entry_def)
    have a: "date_add_days cur (Suc 0) = Inr cur'" using n by simp
    have "i < 10" using True by blast
    then have s: "10 - i = Suc (10 - (i + 1))" by linarith
    have ih: "timetable_loop cur' end_date (i + 1) (results @ [slot_entry i cur]) =
      Inr ((results @ [slot_entry i cur]) @ map (\<lambda>p. slot_entry (fst p) (snd p))
        (enumerate (i + 1) (days_upto cur' end_date (10 - (i + 1)))))"
      using "1.IH" [OF True e a "1.prems"(1)] True by simp
    have "timetable_loop cur end_date i results =
        timetable_loop cur' end_date (i + 1) (results @ [slot_entry i cur])"
      using True e a by (subst timetable_loop.simps) simp
    also note ih
    also have "(results @ [slot_entry i cur]) @ map (\<lambda>p. slot_entry (fst p) (snd p))
        (enumerate (i + 1) (days_upto cur' end_date (10 - (i + 1)))) =
      results @ map (\<lambda>p. slot_entry (fst p) (snd p)) (enumerate i (days_upto cur end_date (10 - i)))"
      using True n by (simp only: s days_upto.simps) simp
    finally show ?thesis .
  next
    case False
    then have "days_upto cur end_date (10 - i) = []"
      by (cases "10 - i") auto
    then show ?thesis using False by (subst timetable_loop.simps) auto
  qed
qed

lemma length_days_upto: "length (days_upto cur end_date n) \<le> n"
proof (induction n arbitrary: cur)
  case 0
  then show ?case by simp
next
  case (Suc n)
  show ?case
  proof (cases "next_day cur")
    case (Inl e)
    then show ?thesis by simp
  next
    case (Inr cur')
    then show ?thesis using Suc [of cur'] by simp
  qed
qed

lemma length_spec_timetable: "length (spec_timetable start_date end_date) \<le> 10"
  by (simp add: spec_timetable_def length_days_upto)

lemma timetable_refines:
  assumes "s \<noteq> []" "strptime_date s = Inr sd" "t \<noteq> []" "strptime_date t = Inr ed"
    and "date_less (if date_less ed sd then sd else ed) \<lparr>year = 9999, month = 12, day = 31\<rparr>"
  shows "get_pronote_timetable utcnow
           \<lparr>url = u, username = n, password = p, tt_start = Some s, tt_end = Some t\<rparr> =
         HTTP_200 (spec_timetable sd (if date_less ed sd then sd else ed))"
proof -
  have "timetable_body utcnow
      \<lparr>url = u, username = n, password = p, tt_start = Some s, tt_end = Some t\<rparr> =
    timetable_loop sd (if date_less ed sd then sd else ed) 0 []"
    using assms(1-4) by (simp add: timetable_body_def)
  also have "\<dots> = Inr (spec_timetable sd (if date_less ed sd then sd else ed))"
    using timetable_loop_refines [OF assms(5), of 0 sd "[]"] by (simp add: spec_timetable_def)
  finally show ?thesis by (simp add: get_pronote_timetable_def)
qed

lemma days_upto_beyond:
  assumes "\<not> date_le cur end_date"
  shows "days_upto cur end_date n = []"
  using assms by (cases n) (simp_all del: date_le.simps)

lemma days_upto_within:
  assumes "d \<in> set (days_upto cur end_date n)"
  shows "date_le d end_date"
  using assms
proof (induction n arbitrary: cur)
  case 0
  then show ?case by simp
next
  case (Suc n)
  then show ?case
    by (cases "next_day cur") (auto split: if_splits simp del: date_le.simps)
qed

lemma days_upto_consecutive:
  assumes "Suc k < length (days_upto cur end_date n)"
  shows "next_day (days_upto cur end_date n ! k) = Inr (days_upto cur end_date n ! Suc k)"
  using assms
proof (induction n arbitrary: cur k)
  case 0
  then show ?case by simp
next
  case (Suc n)
  from Suc.prems have le: "date_le cur end_date"
    by (auto split: if_splits simp del: date_le.simps)
  show ?case
  proof (cases "next_day cur")
    case (Inl e)
    then show ?thesis using Suc.prems le by simp
  next
    case (Inr cur')
    then have eq: "days_upto cur end_date (Suc n) = cur # days_upto cur' end_date n"
      using le by simp
    show ?thesis
    proof (cases k)
      case 0
      have "days_upto cur' end_date n \<noteq> []" using Suc.prems unfolding eq by auto
      then have "days_upto cur' end_date n ! 0 = cur'"
        by (cases n) (auto split: if_splits simp del: date_le.simps)
      then show ?thesis using 0 Inr unfolding eq by simp
    next
      case (Suc j)
      then show ?thesis using Suc.IH [of j cur'] Suc.prems unfolding eq by simp
    qed
  qed
qed

lemma spec_timetable_nth:
  assumes "k < length (spec_timetable start_date end_date)"
  shows "spec_timetable start_date end_date ! k =
    slot_entry k (days_upto start_date end_date 10 ! k)"
  using assms by (simp add: spec_timetable_def nth_enumerate_eq)

lemma timetable_end_before_start:
  assumes "s \<noteq> []" "strptime_date s = Inr sd" "t \<noteq> []" "strptime_date t = Inr ed"
    and "date_less ed sd" and "date_less sd \<lparr>year = 9999, month = 12, day = 31\<rparr>"
  shows "get_pronote_timetable utcnow
           \<lparr>url = u, username = n, password = p, tt_start = Some s, tt_end = Some t\<rparr> =
         HTTP_200 [\<lparr>te_date = strftime_date sd, te_start = ''08:00'', te_end = ''09:30'',
                    subject = ''Maths'', room = Some ''B201'',
                    teacher = Some ''M./Mme X'', group = Some ''2nde A''\<rparr>]"
proof -
  obtain nd where nd: "next_day sd = Inr nd"
    using next_day_defined [OF assms(6)] by blast
  have e9: "days_upto nd sd 9 = []"
    using not_date_le_next [OF nd] by (rule days_upto_beyond)
  have ten: "(10 :: nat) = Suc 9" by simp
  have "days_upto sd sd 10 = days_upto sd sd (Suc 9)" by (simp only: ten)
  also have "\<dots> = [sd]"
    by (simp only: days_upto.simps(2) date_le.simps refl simp_thms if_True nd sum.case e9)
  finally have "days_upto sd sd 10 = [sd]" .
  then have "spec_timetable sd sd = [slot_entry 0 sd]"
    by (simp add: spec_timetable_def)
  moreover have "get_pronote_timetable utcnow
           \<lparr>url = u, username = n, password = p, tt_start = Some s, tt_end = Some t\<rparr> =
         HTTP_200 (spec_timetable sd sd)"
    using timetable_refines [OF assms(1-4), of utcnow u n p] assms(5,6) by simp
  ultimately show ?thesis
    by (simp add: slot_entry_def subjects_def rooms_def)
qed


section \<open>The last day of the calendar\<close>

lemma strptime_9999_12_31:
  "strptime_date ''9999-12-31'' = Inr \<lparr>year = 9999, month = 12, day = 31\<rparr>"
  by code_simp

lemma strptime_9999_12_30:
  "strptime_date ''9999-12-30'' = Inr \<lparr>year = 9999, month = 12, day = 30\<rparr>"
  by code_simp

lemma next_day_9999_12_31:
  "next_day \<lparr>year = 9999, month = 12, day = 31\<rparr> = Inl OverflowError_date"
  by (simp add: next_day_def)

lemma loop_9999_12_31:
  "timetable_loop \<lparr>year = 9999, month = 12, day = 31\<rparr> \<lparr>year = 9999, month = 12, day = 31\<rparr> 0 [] =
     Inl OverflowError_date"
  by (subst timetable_loop.simps) (simp add: timetable_entry_eq next_day_9999_12_31)

lemma date_less_9999:
  "date_less \<lparr>year = 9999, month = 12, day = 30\<rparr> \<lparr>year = 9999, month = 12, day = 31\<rparr> = True"
  "date_less \<lparr>year = 9999, month = 12, day = 31\<rparr> \<lparr>year = 9999, month = 12, day = 31\<rparr> = False"
  by simp_all

text \<open>
  Claim C6 at the last day of the calendar. With start 9999-12-31 and end 9999-12-30
  both dates are valid and the end is earlier than the start; the end is clamped to the
  start, the entry of the start is built, and the step to the next day overflows: the
  answer is status 500, not the one entry. For every other valid start the answer is one
  entry of that day (\<open>timetable_end_before_start\<close>), dated start when the year is
  1000 or later (\<open>timetable_end_before_start_iso\<close>).
\<close>

theorem timetable_clamped_to_last_day_fails:
  "get_pronote_timetable utcnow
     \<lparr>url = u, username = n, password = p,
      tt_start = Some ''9999-12-31'', tt_end = Some ''9999-12-30''\<rparr> =
   HTTP_500 OverflowError_date"
proof -
  have "timetable_body utcnow
     \<lparr>url = u, username = n, password = p,
      tt_start = Some ''9999-12-31'', tt_end = Some ''9999-12-30''\<rparr> =
     timetable_loop \<lparr>year = 9999, month = 12, day = 31\<rparr> \<lparr>year = 9999, month = 12, day = 31\<rparr> 0 []"
    unfolding timetable_body_def
    by (simp only: TimetableRequest.simps parse_or.simps strptime_9999_12_31 strptime_9999_12_30
        sum.case Let_def date_less_9999 if_True list.distinct not_False_eq_True)
  then show ?thesis
    unfolding get_pronote_timetable_def by (simp only: loop_9999_12_31 sum.case)
qed

text \<open>
  Claim C7 at the last day of the calendar. With start and end both 9999-12-31 the
  timetable of the specification has one entry, and the handler answers status 500: the
  loop steps to the next day after the last entry it needs. When the clamped end is
  before 9999-12-31 the handler returns the timetable of the specification
  (\<open>timetable_refines\<close>).
\<close>

theorem timetable_of_last_day_fails:
  "get_pronote_timetable utcnow
     \<lparr>url = u, username = n, password = p,
      tt_start = Some ''9999-12-31'', tt_end = Some ''9999-12-31''\<rparr> =
   HTTP_500 OverflowError_date"
proof -
  have "timetable_body utcnow
     \<lparr>url = u, username = n, password = p,
      tt_start = Some ''9999-12-31'', tt_end = Some ''9999-12-31''\<rparr> =
     timetable_loop \<lparr>year = 9999, month = 12, day = 31\<rparr> \<lparr>year = 9999, month = 12, day = 31\<rparr> 0 []"
    unfolding timetable_body_def
    by (simp only: TimetableRequest.simps parse_or.simps strptime_9999_12_31
        sum.case Let_def date_less_9999 if_False list.distinct not_False_eq_True if_True)
  then show ?thesis
    unfolding get_pronote_timetable_def by (simp only: loop_9999_12_31 sum.case)
qed


lemma strptime_date_valid:
  assumes "strptime_date s = Inr d"
  shows "year d \<le> 9999 \<and> month d \<le> 12 \<and> day d \<le> 31"
proof -
  obtain y m dd r where "new_date y m dd = Inr d"
    using assms unfolding strptime_date_def
    by (auto split: option.splits if_splits)
  then have "d = \<lparr>year = y, month = m, day = dd\<rparr>" "y \<le> 9999" "m \<le> 12" "dd \<le> days_in_month y m"
    unfolding new_date_def by (auto split: if_splits simp del: days_in_month.simps)
  then show ?thesis using days_in_month_le [of y m] by simp
qed

lemma iso_9999_12_31: "iso_date ''9999-12-31''"
  by (simp add: is_digit_def digit_val_simps)

lemma timetable_end_before_start_iso:
  assumes "iso_date s" "iso_date t" "strptime_date s = Inr sd" "strptime_date t = Inr ed"
    and "date_less ed sd" and "s \<noteq> ''9999-12-31''" and "''1000-01-01'' \<le> s"
  shows "get_pronote_timetable utcnow
           \<lparr>url = u, username = n, password = p, tt_start = Some s, tt_end = Some t\<rparr> =
         HTTP_200 [\<lparr>te_date = s, te_start = ''08:00'', te_end = ''09:30'',
                    subject = ''Maths'', room = Some ''B201'',
                    teacher = Some ''M./Mme X'', group = Some ''2nde A''\<rparr>]"
proof -
  have fs: "strftime_date sd = s"
    using iso_date_roundtrip [OF assms(1) assms(7)] assms(3) by auto
  have "strftime_date \<lparr>year = 9999, month = 12, day = 31\<rparr> = ''9999-12-31''"
    using iso_date_roundtrip [OF iso_9999_12_31] strptime_9999_12_31 by auto
  then have ne: "sd \<noteq> \<lparr>year = 9999, month = 12, day = 31\<rparr>"
    using fs assms(6) by auto
  have "year sd \<le> 9999 \<and> month sd \<le> 12 \<and> day sd \<le> 31"
    using assms(3) by (rule strptime_date_valid)
  then have lt: "date_less sd \<lparr>year = 9999, month = 12, day = 31\<rparr>"
    using ne by (cases sd) auto
  have s0: "s \<noteq> []" "t \<noteq> []" using assms(1,2) by auto
  show ?thesis
    using timetable_end_before_start [OF s0(1) assms(3) s0(2) assms(4) assms(5) lt, of utcnow u n p] fs
    by simp
qed

end
